theory Spec2Isabelle
  imports Complex_Main
begin

section \<open>JavaScript values used by the interview coach\<close>

text \<open>
  A JavaScript string is a finite sequence of UTF-16 code units. A code unit is modelled
  as a natural number, so every JavaScript string is a value of \<open>jsstring\<close>. The numbers
  of the analyzer and of the session handler are modelled in exact arithmetic (\<open>int\<close>,
  \<open>real\<close>); those of the gaze classifier are binary64 values with their rounding.
\<close>

type_synonym jsstring = "nat list"

definition ascii :: "string \<Rightarrow> jsstring" where
  "ascii s = map of_char s"

text \<open>\<open>Math.round\<close>: the nearest integer, a tie going up.\<close>

definition Math_round :: "real \<Rightarrow> int" where
  "Math_round x = \<lfloor>x + 1 / 2\<rfloor>"

text \<open>
  The value of \<open>Math.round(wordCount / minutesDuration)\<close>. The dividend is at least 1, so a
  zero divisor gives \<open>Infinity\<close> and never \<open>NaN\<close>.
\<close>

datatype rounded = Finite int | Infinity

fun js_less :: "rounded \<Rightarrow> int \<Rightarrow> bool" where
  "js_less (Finite a) b = (a < b)"
| "js_less Infinity b = False"

fun js_greater :: "rounded \<Rightarrow> int \<Rightarrow> bool" where
  "js_greater (Finite a) b = (b < a)"
| "js_greater Infinity b = True"

fun js_le :: "rounded \<Rightarrow> int \<Rightarrow> bool" where
  "js_le (Finite a) b = (a \<le> b)"
| "js_le Infinity b = False"

fun js_ge :: "rounded \<Rightarrow> int \<Rightarrow> bool" where
  "js_ge (Finite a) b = (b \<le> a)"
| "js_ge Infinity b = True"

text \<open>
  Template literals turn a number into its decimal digits (below \<open>10^21\<close>, which every
  count of this program is).
\<close>

fun digits :: "nat \<Rightarrow> jsstring" where
  "digits n = (if n < 10 then [48 + n] else digits (n div 10) @ [48 + n mod 10])"

declare digits.simps [simp del]

definition int_to_string :: "int \<Rightarrow> jsstring" where
  "int_to_string i = (if i < 0 then 45 # digits (nat (- i)) else digits (nat i))"

fun rounded_to_string :: "rounded \<Rightarrow> jsstring" where
  "rounded_to_string (Finite i) = int_to_string i"
| "rounded_to_string Infinity = ascii ''Infinity''"

section \<open>Regular expressions of the analyzer\<close>

text \<open>
  The analyzer builds \<open>new RegExp(`\\b${word}\\b`, 'gi')\<close> from words made of ASCII
  letters and spaces. Without the \<open>u\<close> flag, \<open>\w\<close> is \<open>[A-Za-z0-9_]\<close> and the
  case-insensitive comparison never identifies a code unit above 127 with an ASCII one, so
  against these words only the folding of ASCII letters matters.
\<close>

definition is_wordchar :: "nat \<Rightarrow> bool" where
  "is_wordchar c = ((48 \<le> c \<and> c \<le> 57) \<or> (65 \<le> c \<and> c \<le> 90) \<or> c = 95 \<or> (97 \<le> c \<and> c \<le> 122))"

definition canonicalize :: "nat \<Rightarrow> nat" where
  "canonicalize c = (if 97 \<le> c \<and> c \<le> 122 then c - 32 else c)"

text \<open>The class \<open>\s\<close>: the white space and line terminator code units.\<close>

definition is_space :: "nat \<Rightarrow> bool" where
  "is_space c = (c \<in> {9, 10, 11, 12, 13, 32, 160, 5760, 8232, 8233, 8239, 8287, 12288, 65279}
       \<or> (8192 \<le> c \<and> c \<le> 8202))"

text \<open>\<open>is_word_before s e\<close> and \<open>is_word_at s e\<close>: the two sides of position \<open>e\<close>.\<close>

definition is_word_before :: "jsstring \<Rightarrow> nat \<Rightarrow> bool" where
  "is_word_before s e = (0 < e \<and> e \<le> length s \<and> is_wordchar (s ! (e - 1)))"

definition is_word_at :: "jsstring \<Rightarrow> nat \<Rightarrow> bool" where
  "is_word_at s e = (e < length s \<and> is_wordchar (s ! e))"

definition word_boundary :: "jsstring \<Rightarrow> nat \<Rightarrow> bool" where
  "word_boundary s e = (is_word_before s e \<noteq> is_word_at s e)"

fun literal_at :: "jsstring \<Rightarrow> jsstring \<Rightarrow> bool" where
  "literal_at [] t = True"
| "literal_at (p # ps) [] = False"
| "literal_at (p # ps) (c # cs) = (canonicalize p = canonicalize c \<and> literal_at ps cs)"

definition match_at :: "jsstring \<Rightarrow> jsstring \<Rightarrow> nat \<Rightarrow> bool" where
  "match_at word s i =
     (word_boundary s i \<and> literal_at word (drop i s) \<and> word_boundary s (i + length word))"

text \<open>
  \<open>transcript.match(regex)\<close> with the \<open>g\<close> flag: the matches are taken from left to
  right, each search starting where the last match ended (one further after an empty match).
  \<open>match_count word s i\<close> is the number of matches found from index \<open>i\<close> on.
\<close>

function match_count :: "jsstring \<Rightarrow> jsstring \<Rightarrow> nat \<Rightarrow> nat" where
  "match_count word s i =
     (if length s < i then 0
      else if match_at word s i
        then 1 + match_count word s (if word = [] then i + 1 else i + length word)
      else match_count word s (i + 1))"
  by pat_completeness auto
termination
proof (relation "measure (\<lambda>(word, s, i). length s + 1 - i)")
  show "wf (measure (\<lambda>(word, s, i). length s + 1 - i))" by simp
next
  fix word s :: jsstring and i :: nat
  assume a: "\<not> length s < i"
  show "((word, s, if word = [] then i + 1 else i + length word), word, s, i)
      \<in> measure (\<lambda>(word, s, i). length s + 1 - i)"
  proof (cases word)
    case Nil
    with a show ?thesis by simp
  next
    case (Cons p ps)
    with a show ?thesis by simp
  qed
next
  fix word s :: jsstring and i :: nat
  assume "\<not> length s < i"
  then show "((word, s, i + 1), word, s, i) \<in> measure (\<lambda>(word, s, i). length s + 1 - i)"
    by simp
qed

declare match_count.simps [simp del]

text \<open>The \<open>forEach\<close> over a lexicon, adding up \<open>matches.length\<close>.\<close>

definition count_lexicon :: "jsstring list \<Rightarrow> jsstring \<Rightarrow> nat" where
  "count_lexicon lexicon transcript =
     foldl (\<lambda>count word. count + match_count word transcript 0) 0 lexicon"

definition fillerWords :: "jsstring list" where
  "fillerWords = map ascii [''um'', ''uh'', ''like'', ''you know'', ''basically'', ''actually'',
     ''literally'']"

definition actionVerbs :: "jsstring list" where
  "actionVerbs = map ascii [''achieved'', ''led'', ''managed'', ''created'', ''delivered'',
     ''improved'', ''increased'', ''reduced'', ''solved'', ''implemented'']"

text \<open>
  \<open>transcript.split(/\s+/)\<close>: the pieces between the maximal runs of white space. A run
  at the start or at the end of the string leaves an empty piece there, and the empty string
  has the one piece \<open>''\<close>.
\<close>

function split_pieces :: "jsstring \<Rightarrow> jsstring \<Rightarrow> jsstring list" where
  "split_pieces piece [] = [piece]"
| "split_pieces piece (c # cs) =
     (if is_space c then piece # split_pieces [] (dropWhile is_space cs)
      else split_pieces (piece @ [c]) cs)"
  by pat_completeness auto
termination
  by (relation "measure (\<lambda>(piece, s). length s)")
     (auto simp: less_Suc_eq_le length_dropWhile_le)

definition split_whitespace :: "jsstring \<Rightarrow> jsstring list" where
  "split_whitespace s = split_pieces [] s"

text \<open>\<open>[...new Set(xs)]\<close>: the first occurrence of every element, in order.\<close>

fun set_values :: "'a list \<Rightarrow> 'a list \<Rightarrow> 'a list" where
  "set_values seen [] = seen"
| "set_values seen (x # xs) = set_values (if x \<in> set seen then seen else seen @ [x]) xs"

section \<open>The analyzer (\<open>analyzeTranscript\<close> of the server)\<close>

definition check_mark :: jsstring where "check_mark = [9989]"
definition warning_sign :: jsstring where "warning_sign = [9888, 65039]"
definition cross_mark :: jsstring where "cross_mark = [10060]"

text \<open>
  Each rubric of the analyzer updates the running \<open>score\<close> and the \<open>suggestions\<close> array;
  the pair of both is passed through the five rubrics in the order of the source.
\<close>

type_synonym progress = "int \<times> jsstring list"

fun filler_rubric :: "nat \<Rightarrow> progress \<Rightarrow> progress" where
  "filler_rubric fillerCount (score, suggestions) =
     (if fillerCount = 0 then
        (score + 2, suggestions @ [check_mark @ ascii '' Excellent! No filler words detected''])
      else if fillerCount \<le> 2 then
        (score + 1, suggestions @ [warning_sign @ ascii '' Reduce filler words (found ''
           @ digits fillerCount @ ascii '')''])
      else
        (score, suggestions @ [cross_mark @ ascii '' Too many filler words (''
           @ digits fillerCount @ ascii '' found) - Speak with confidence'']))"

fun pace_rubric :: "rounded \<Rightarrow> progress \<Rightarrow> progress" where
  "pace_rubric wpm (score, suggestions) =
     (if js_ge wpm 120 \<and> js_le wpm 150 then
        (score + 1, suggestions @ [check_mark @ ascii '' Perfect pace: ''
           @ rounded_to_string wpm @ ascii '' words/min (120-150 is ideal)''])
      else if js_less wpm 80 then
        (score, suggestions @ [warning_sign @ ascii '' Speaking too slowly (''
           @ rounded_to_string wpm @ ascii '' wpm) - Pick up the pace''])
      else if js_greater wpm 180 then
        (score, suggestions @ [warning_sign @ ascii '' Speaking too fast (''
           @ rounded_to_string wpm @ ascii '' wpm) - Slow down for clarity''])
      else (score, suggestions))"

fun gaze_rubric :: "int \<Rightarrow> progress \<Rightarrow> progress" where
  "gaze_rubric eyeContactScore (score, suggestions) =
     (if 80 \<le> eyeContactScore then
        (score + 2, suggestions @ [check_mark @ ascii '' Excellent eye contact maintained''])
      else if 60 \<le> eyeContactScore then
        (score + 1, suggestions @ [warning_sign @ ascii '' Maintain more eye contact (''
           @ int_to_string eyeContactScore @ ascii ''% detected)''])
      else
        (score, suggestions @ [cross_mark @ ascii '' Poor eye contact (''
           @ int_to_string eyeContactScore @ ascii ''%) - Look at the camera'']))"

fun length_rubric :: "nat \<Rightarrow> progress \<Rightarrow> progress" where
  "length_rubric wordCount (score, suggestions) =
     (if wordCount < 50 then
        (score, suggestions @ [warning_sign @ ascii '' Response too short - Provide more details''])
      else if 500 < wordCount then
        (score, suggestions @ [warning_sign @ ascii '' Response too long - Be more concise''])
      else
        (score + 1, suggestions @ [check_mark @ ascii '' Good response length'']))"

fun verb_rubric :: "nat \<Rightarrow> progress \<Rightarrow> progress" where
  "verb_rubric actionVerbCount (score, suggestions) =
     (if 3 \<le> actionVerbCount then
        (score + 2, suggestions @ [check_mark @ ascii '' Great use of action verbs (''
           @ digits actionVerbCount @ ascii '' found)''])
      else if 0 < actionVerbCount then
        (score + 1, suggestions @ [warning_sign @ ascii '' Use more action verbs (''
           @ digits actionVerbCount @ ascii '' found - aim for 3+)''])
      else
        (score, suggestions @ [cross_mark
           @ ascii '' Include action verbs (achieved, led, managed, etc.)'']))"

declare filler_rubric.simps [simp del] pace_rubric.simps [simp del] gaze_rubric.simps [simp del]
  length_rubric.simps [simp del] verb_rubric.simps [simp del]

definition fillerCount_of :: "jsstring \<Rightarrow> nat" where
  "fillerCount_of transcript = count_lexicon fillerWords transcript"

definition wordCount_of :: "jsstring \<Rightarrow> nat" where
  "wordCount_of transcript = length (split_whitespace transcript)"

definition wpm_of :: "jsstring \<Rightarrow> real \<Rightarrow> rounded" where
  "wpm_of transcript duration =
     (let minutesDuration = duration / 60
      in if minutesDuration = 0 then Infinity
         else Finite (Math_round (real (wordCount_of transcript) / minutesDuration)))"

definition actionVerbCount_of :: "jsstring \<Rightarrow> nat" where
  "actionVerbCount_of transcript = count_lexicon actionVerbs transcript"

text \<open>The score and the suggestions after the five rubrics, before the clamp (line 119).\<close>

definition rubrics :: "jsstring \<Rightarrow> real \<Rightarrow> int \<Rightarrow> progress" where
  "rubrics transcript duration eyeContactScore =
     verb_rubric (actionVerbCount_of transcript)
       (length_rubric (wordCount_of transcript)
         (gaze_rubric eyeContactScore
           (pace_rubric (wpm_of transcript duration)
             (filler_rubric (fillerCount_of transcript) (6, [])))))"

text \<open>\<open>Math.min(10, Math.max(1, score))\<close>\<close>

definition clamp_score :: "int \<Rightarrow> int" where
  "clamp_score score = min 10 (max 1 score)"

record metrics =
  m_fillerWords :: nat
  m_wordsPerMinute :: rounded
  m_totalWords :: nat
  m_eyeContactScore :: int
  m_facesDetected :: nat
  m_actionVerbs :: nat

text \<open>
  The returned object. Its \<open>analysis\<close> field (three summary strings, one of them made with
  \<open>toFixed\<close>) plays no part in the properties below and is left out.
\<close>

record analysis =
  score :: int
  suggestions :: "jsstring list"
  metrics :: metrics

definition analyzeTranscript :: "jsstring \<Rightarrow> real \<Rightarrow> int \<Rightarrow> nat \<Rightarrow> analysis" where
  "analyzeTranscript transcript duration eyeContactScore facesDetected =
     (let final = rubrics transcript duration eyeContactScore in
        \<lparr>score = clamp_score (fst final),
         suggestions = set_values [] (snd final),
         metrics = \<lparr>m_fillerWords = fillerCount_of transcript,
                    m_wordsPerMinute = wpm_of transcript duration,
                    m_totalWords = wordCount_of transcript,
                    m_eyeContactScore = eyeContactScore,
                    m_facesDetected = facesDetected,
                    m_actionVerbs = actionVerbCount_of transcript\<rparr>\<rparr>)"

section \<open>The session handler (the \<open>message\<close> callback of the server)\<close>

text \<open>
  The \<open>score\<close> field of an \<open>eye_contact\<close> message, which the handler stores unchecked:
  an integer, as the client sends it, or a value whose conversion to a string or to a number
  throws a TypeError. The latter are the objects with a property \<open>toString\<close>, such as
  \<open>{"toString": 1}\<close> (no JSON value is callable), and the arrays that hold one. Every
  other value (a missing field, a string, a fraction) is converted without an exception and
  is outside this model.
\<close>

datatype sample = Score int | Unconvertible

record sessionData =
  transcript :: jsstring
  startTime :: int
  eyeContactScores :: "sample list"
  facesDetected :: nat

text \<open>
  What \<open>JSON.parse(message)\<close> returned, as far as the handler reads it: the \<open>type\<close>
  field and, for the types that use one, the \<open>transcript\<close> or \<open>score\<close> field.
\<close>

datatype data =
    Transcript jsstring   \<comment> \<open>\<open>type\<close> is \<open>'transcript'\<close>, \<open>transcript\<close> a string\<close>
  | TranscriptNotString   \<comment> \<open>\<open>type\<close> is \<open>'transcript'\<close>, \<open>transcript\<close> missing or no string\<close>
  | EyeContact sample     \<comment> \<open>\<open>type\<close> is \<open>'eye_contact'\<close>, with its \<open>score\<close>\<close>
  | FaceDetected          \<comment> \<open>\<open>type\<close> is \<open>'face_detected'\<close>\<close>
  | Start                 \<comment> \<open>\<open>type\<close> is \<open>'start'\<close>\<close>
  | Stop                  \<comment> \<open>\<open>type\<close> is \<open>'stop'\<close>\<close>
  | OtherType             \<comment> \<open>any other value with any other or no \<open>type\<close>\<close>
  | JsonNull              \<comment> \<open>the JSON text \<open>null\<close>\<close>

datatype inbound =
    Unparsable jsstring   \<comment> \<open>\<open>JSON.parse\<close> throws a SyntaxError with this message\<close>
  | Parsed data

datatype exception =
    SyntaxError jsstring
  | TypeError_type        \<comment> \<open>reading \<open>data.type\<close> of \<open>null\<close>\<close>
  | TypeError_substring   \<comment> \<open>calling \<open>data.transcript.substring\<close> on what is no string\<close>
  | TypeError_primitive   \<comment> \<open>converting a score to a primitive value\<close>

datatype outbound =
    Status jsstring
  | FinalAnalysis jsstring analysis   \<comment> \<open>the trimmed transcript and the analysis\<close>
  | Error exception                   \<comment> \<open>\<open>message: error.message\<close>\<close>

definition trim :: "jsstring \<Rightarrow> jsstring" where
  "trim s = rev (dropWhile is_space (rev (dropWhile is_space s)))"

definition fresh_session :: "int \<Rightarrow> sessionData" where
  "fresh_session now = \<lparr>transcript = [], startTime = now, eyeContactScores = [], facesDetected = 0\<rparr>"

text \<open>
  \<open>reduce((a, b) => a + b, 0)\<close> over the stored scores: the addition throws at the first
  score that has no primitive value.
\<close>

fun reduce_add :: "int \<Rightarrow> sample list \<Rightarrow> exception + int" where
  "reduce_add a [] = Inr a"
| "reduce_add a (Score b # rest) = reduce_add (a + b) rest"
| "reduce_add a (Unconvertible # rest) = Inl TypeError_primitive"

definition avgEyeContact_of :: "sample list \<Rightarrow> exception + int" where
  "avgEyeContact_of scores =
     (if 0 < length scores
      then (case reduce_add 0 scores of
              Inl error \<Rightarrow> Inl error
            | Inr added \<Rightarrow> Inr (Math_round (real_of_int added / real (length scores))))
      else Inr 0)"

text \<open>
  The \<open>stop\<close> branch up to the call of \<open>analyzeTranscript\<close>; \<open>now\<close> is \<open>Date.now()\<close>.
\<close>

definition stop_analysis :: "int \<Rightarrow> sessionData \<Rightarrow> exception + analysis" where
  "stop_analysis now sessionData =
     (let duration = real_of_int (now - startTime sessionData) / 1000
      in case avgEyeContact_of (eyeContactScores sessionData) of
           Inl error \<Rightarrow> Inl error
         | Inr avgEyeContact \<Rightarrow>
             Inr (analyzeTranscript (transcript sessionData) duration avgEyeContact
                    (facesDetected sessionData)))"

text \<open>
  The \<open>try\<close> block: the session data it leaves behind, and either the exception thrown
  (\<open>Inl\<close>) or the messages sent. The \<open>transcript\<close> branch logs
  \<open>data.transcript.substring(0, 50)\<close> before it assigns; the \<open>eye_contact\<close> branch
  pushes \<open>data.score\<close> before it logs the score in a template literal, so a score that has
  no string is stored when the exception is thrown. Sending on the socket is taken to
  succeed.
\<close>

fun try_block :: "int \<Rightarrow> sessionData \<Rightarrow> inbound \<Rightarrow> sessionData \<times> (exception + outbound list)" where
  "try_block now sessionData (Unparsable description) =
     (sessionData, Inl (SyntaxError description))"
| "try_block now sessionData (Parsed JsonNull) = (sessionData, Inl TypeError_type)"
| "try_block now sessionData (Parsed TranscriptNotString) =
     (sessionData, Inl TypeError_substring)"
| "try_block now sessionData (Parsed (Transcript fragment)) =
     (sessionData\<lparr>transcript := transcript sessionData @ ascii '' '' @ fragment\<rparr>, Inr [])"
| "try_block now sessionData (Parsed (EyeContact given)) =
     (sessionData\<lparr>eyeContactScores := eyeContactScores sessionData @ [given]\<rparr>,
      case given of Score n \<Rightarrow> Inr [] | Unconvertible \<Rightarrow> Inl TypeError_primitive)"
| "try_block now sessionData (Parsed FaceDetected) =
     (sessionData\<lparr>facesDetected := facesDetected sessionData + 1\<rparr>, Inr [])"
| "try_block now sessionData (Parsed Start) =
     (fresh_session now,
      Inr [Status (ascii ''Recording started - Look at the camera and speak naturally!'')])"
| "try_block now sessionData (Parsed Stop) =
     (sessionData,
      case stop_analysis now sessionData of
        Inl error \<Rightarrow> Inl error
      | Inr result \<Rightarrow> Inr [FinalAnalysis (trim (transcript sessionData)) result])"
| "try_block now sessionData (Parsed OtherType) = (sessionData, Inr [])"

text \<open>The whole callback: the \<open>catch\<close> block sends the error and assigns nothing.\<close>

definition on_message :: "int \<Rightarrow> sessionData \<Rightarrow> inbound \<Rightarrow> sessionData \<times> outbound list" where
  "on_message now sessionData message =
     (case try_block now sessionData message of
        (sessionData', Inl error) \<Rightarrow> (sessionData', [Error error])
      | (sessionData', Inr sent) \<Rightarrow> (sessionData', sent))"

text \<open>A connection handles its messages one after the other, each at its own time.\<close>

definition run :: "sessionData \<Rightarrow> (int \<times> inbound) list \<Rightarrow> sessionData" where
  "run sessionData messages =
     foldl (\<lambda>current (now, message). fst (on_message now current message)) sessionData messages"

text \<open>The final fragments that a list of messages carries, in order.\<close>

fun fragment_of :: "inbound \<Rightarrow> jsstring list" where
  "fragment_of (Parsed (Transcript fragment)) = [fragment]"
| "fragment_of other = []"

definition fragments_of :: "(int \<times> inbound) list \<Rightarrow> jsstring list" where
  "fragments_of messages = concat (map (\<lambda>(now, message). fragment_of message) messages)"

section \<open>Binary64 numbers\<close>

text \<open>
  The classifier compares sums and products of fractions, where the rounding of the doubles
  of JavaScript decides the result; so its numbers are modelled as IEEE 754 binary64 values:
  a finite double is the real number it denotes (the two zeros are not told apart, which no
  operation used here does), and there are the two infinities and \<open>NaN\<close>.
\<close>

datatype double = Double real | PlusInfinity | MinusInfinity | NaN

text \<open>\<open>ilog2 n\<close> is the largest \<open>k\<close> with \<open>2 ^ k \<le> n\<close>, for \<open>n > 0\<close>.\<close>

fun ilog2 :: "nat \<Rightarrow> nat" where
  "ilog2 n = (if n < 2 then 0 else Suc (ilog2 (n div 2)))"

declare ilog2.simps [simp del]

text \<open>The exponent of a positive real: \<open>2 ^ binade x \<le> x < 2 ^ (binade x + 1)\<close>.\<close>

definition binade :: "real \<Rightarrow> int" where
  "binade x =
     (if 1 \<le> x then int (ilog2 (nat \<lfloor>x\<rfloor>))
      else if nat \<lceil>1 / x\<rceil> \<le> 1 then 0
      else - int (Suc (ilog2 (nat \<lceil>1 / x\<rceil> - 1))))"

definition pow2 :: "int \<Rightarrow> real" where
  "pow2 e = (if 0 \<le> e then 2 ^ nat e else 1 / 2 ^ nat (- e))"

text \<open>The nearest integer, a tie going to the even one.\<close>

definition round_ties_even :: "real \<Rightarrow> int" where
  "round_ties_even x =
     (let n = \<lfloor>x\<rfloor>; r = x - of_int n
      in if r < 1 / 2 then n else if 1 / 2 < r then n + 1 else if even n then n else n + 1)"

text \<open>
  The double nearest to a real, a tie going to the even significand: 53 significant bits,
  exponents from -1022 (below which the doubles are the multiples of \<open>2 ^ -1074\<close>) to 1023,
  and an infinity for what rounds to \<open>2 ^ 1024\<close> or beyond.
\<close>

definition round64 :: "real \<Rightarrow> double" where
  "round64 x =
     (if x = 0 then Double 0
      else let e = max (binade \<bar>x\<bar>) (- 1022);
               quantum = pow2 (e - 52);
               y = of_int (round_ties_even (x / quantum)) * quantum
           in if pow2 1024 \<le> \<bar>y\<bar> then (if 0 < x then PlusInfinity else MinusInfinity)
              else Double y)"

fun d_neg :: "double \<Rightarrow> double" where
  "d_neg (Double a) = Double (- a)"
| "d_neg PlusInfinity = MinusInfinity"
| "d_neg MinusInfinity = PlusInfinity"
| "d_neg NaN = NaN"

fun d_add :: "double \<Rightarrow> double \<Rightarrow> double" where
  "d_add (Double a) (Double b) = round64 (a + b)"
| "d_add NaN y = NaN"
| "d_add x NaN = NaN"
| "d_add PlusInfinity MinusInfinity = NaN"
| "d_add MinusInfinity PlusInfinity = NaN"
| "d_add PlusInfinity y = PlusInfinity"
| "d_add MinusInfinity y = MinusInfinity"
| "d_add x PlusInfinity = PlusInfinity"
| "d_add x MinusInfinity = MinusInfinity"

definition d_sub :: "double \<Rightarrow> double \<Rightarrow> double" where
  "d_sub x y = d_add x (d_neg y)"

text \<open>The sign of a double that is not \<open>NaN\<close>: 1, 0 or -1.\<close>

fun d_sign :: "double \<Rightarrow> int" where
  "d_sign (Double a) = (if a = 0 then 0 else if 0 < a then 1 else - 1)"
| "d_sign PlusInfinity = 1"
| "d_sign MinusInfinity = - 1"
| "d_sign NaN = 0"

text \<open>
  A product of two finite doubles is rounded; with an infinity the product is \<open>NaN\<close> when
  the other factor is zero, and else the infinity of the sign of the product.
\<close>

definition d_mul :: "double \<Rightarrow> double \<Rightarrow> double" where
  "d_mul x y =
     (case (x, y) of
        (Double a, Double b) \<Rightarrow> round64 (a * b)
      | other \<Rightarrow>
          if x = NaN \<or> y = NaN \<or> d_sign x * d_sign y = 0 then NaN
          else if 0 < d_sign x * d_sign y then PlusInfinity else MinusInfinity)"





text \<open>A numeric literal of the source denotes the double nearest to it.\<close>

definition literal :: "real \<Rightarrow> double" where
  "literal x = round64 x"

section \<open>The gaze classifier (\<open>detectEyeContact\<close> of the client)\<close>






section \<open>Notions of the specification\<close>

text \<open>The score deltas of the five rubrics, as the specification tabulates them.\<close>

definition filler_delta :: "nat \<Rightarrow> int" where
  "filler_delta f = (if f = 0 then 2 else if 1 \<le> f \<and> f \<le> 2 then 1 else 0)"

definition pace_delta :: "rounded \<Rightarrow> int" where
  "pace_delta wpm = (if js_ge wpm 120 \<and> js_le wpm 150 then 1 else 0)"

definition gaze_delta :: "int \<Rightarrow> int" where
  "gaze_delta g = (if 80 \<le> g then 2 else if 60 \<le> g \<and> g < 80 then 1 else 0)"

definition length_delta :: "nat \<Rightarrow> int" where
  "length_delta n = (if n < 50 then 0 else if 500 < n then 0 else 1)"

definition verb_delta :: "nat \<Rightarrow> int" where
  "verb_delta v = (if 3 \<le> v then 2 else if 0 < v \<and> v < 3 then 1 else 0)"

definition rubric_sum :: "jsstring \<Rightarrow> real \<Rightarrow> int \<Rightarrow> int" where
  "rubric_sum t duration g =
     6 + filler_delta (fillerCount_of t) + pace_delta (wpm_of t duration) + gaze_delta g
       + length_delta (wordCount_of t) + verb_delta (actionVerbCount_of t)"

text \<open>
  The count of the filler rubric in the words of the specification: the case-insensitive
  whole-word occurrences of the words of the lexicon. A word occurs at a position of the
  transcript when the code units from there on are those of the word, upper and lower case
  letters taken as the same, and the occurrence is bounded by word boundaries on both ends:
  at each end exactly one of the two neighbours is a word character (a letter, a digit or
  the underscore).
\<close>

definition lower_case :: "nat \<Rightarrow> nat" where
  "lower_case c = (if of_char CHR ''A'' \<le> c \<and> c \<le> of_char CHR ''Z'' then c + 32 else c)"

definition word_character :: "nat \<Rightarrow> bool" where
  "word_character c =
     ((of_char CHR ''a'' \<le> c \<and> c \<le> of_char CHR ''z'') \<or> (of_char CHR ''A'' \<le> c \<and> c \<le> of_char CHR ''Z'')
      \<or> (of_char CHR ''0'' \<le> c \<and> c \<le> of_char CHR ''9'') \<or> c = of_char CHR ''_'')"

definition boundary_at :: "jsstring \<Rightarrow> nat \<Rightarrow> bool" where
  "boundary_at t i =
     ((0 < i \<and> word_character (t ! (i - 1))) \<noteq> (i < length t \<and> word_character (t ! i)))"

definition occurs_at :: "jsstring \<Rightarrow> jsstring \<Rightarrow> nat \<Rightarrow> bool" where
  "occurs_at word t i =
     (i + length word \<le> length t
      \<and> map lower_case (take (length word) (drop i t)) = map lower_case word
      \<and> boundary_at t i \<and> boundary_at t (i + length word))"

definition whole_word_count :: "jsstring \<Rightarrow> jsstring \<Rightarrow> nat" where
  "whole_word_count word t = length (filter (occurs_at word t) [0..<Suc (length t)])"

definition filler_lexicon :: "jsstring list" where
  "filler_lexicon = [ascii ''um'', ascii ''uh'', ascii ''like'', ascii ''you know'',
     ascii ''basically'', ascii ''actually'', ascii ''literally'']"

definition lexicon_count :: "jsstring list \<Rightarrow> jsstring \<Rightarrow> nat" where
  "lexicon_count lexicon t = sum_list (map (\<lambda>word. whole_word_count word t) lexicon)"

text \<open>
  A word none of whose occurrences can overlap another one: no word boundary inside the word
  is followed by the first code unit of the word.
\<close>

definition no_inner_start :: "jsstring \<Rightarrow> bool" where
  "no_inner_start word =
     (\<forall>k<length word. 0 < k \<longrightarrow>
        is_wordchar (word ! (k - 1)) = is_wordchar (word ! k)
        \<or> canonicalize (word ! k) \<noteq> canonicalize (word ! 0))"

text \<open>
  The number of words of a text: the maximal runs of code units that are not white space.
  The flag tells whether the code unit before belongs to a word.
\<close>

fun count_words_from :: "bool \<Rightarrow> jsstring \<Rightarrow> nat" where
  "count_words_from inside [] = 0"
| "count_words_from inside (c # cs) =
     (if is_space c then count_words_from False cs
      else (if inside then 0 else 1) + count_words_from True cs)"

definition count_words :: "jsstring \<Rightarrow> nat" where
  "count_words t = count_words_from False t"

definition ends_with_space :: "jsstring \<Rightarrow> bool" where
  "ends_with_space t = (t \<noteq> [] \<and> is_space (last t))"



text \<open>The pace band in which the pace rubric says nothing: 80 to 119, or 151 to 180.\<close>

definition pace_silent :: "rounded \<Rightarrow> bool" where
  "pace_silent wpm = ((js_ge wpm 80 \<and> js_less wpm 120) \<or> (js_greater wpm 150 \<and> js_le wpm 180))"

text \<open>The fragments of a session, each after a space.\<close>

definition joined :: "jsstring list \<Rightarrow> jsstring" where
  "joined fs = concat (map (\<lambda>f. 32 # f) fs)"



text \<open>
  The transcripts of the two scenarios of the specification: the one of the scoring
  scenario, and one with "um" and "uh" twice each.
\<close>

definition scenario_transcript :: jsstring where
  "scenario_transcript = ascii ''I achieved great results and led the team to success''"

definition filler_transcript :: jsstring where
  "filler_transcript = ascii ''um I think uh we um should uh go''"

text \<open>A transcript with one filler word.\<close>

definition like_transcript :: jsstring where
  "like_transcript = ascii ''I like it''"

text \<open>
  A transcript with "um" and "uh" twice each in upper and lower case and next to
  punctuation, and with words that only contain a filler word.
\<close>

definition mixed_transcript :: jsstring where
  "mixed_transcript = ascii ''Um, the umbrella is UH-huh likely. uh, YOU KNOWN um!''"

section \<open>Evaluation on concrete transcripts\<close>

lemmas regex_eval = match_count.simps match_at_def word_boundary_def is_word_before_def
  is_word_at_def is_wordchar_def canonicalize_def count_lexicon_def ascii_def

lemmas split_eval = wordCount_of_def split_whitespace_def is_space_def ascii_def

lemma scenario_fillerCount: "fillerCount_of scenario_transcript = 0"
  by (simp add: scenario_transcript_def fillerCount_of_def fillerWords_def regex_eval)

lemma scenario_actionVerbCount: "actionVerbCount_of scenario_transcript = 2"
  by (simp add: scenario_transcript_def actionVerbCount_of_def actionVerbs_def regex_eval)

lemma scenario_wordCount: "wordCount_of scenario_transcript = 10"
  by (simp add: scenario_transcript_def split_eval)

lemma scenario_wpm: "wpm_of scenario_transcript (9 / 2) = Finite 133"
  by (simp add: wpm_of_def scenario_wordCount Math_round_def)

lemma scenario_wpm_slow: "wpm_of scenario_transcript 6 = Finite 100"
  by (simp add: wpm_of_def scenario_wordCount Math_round_def)

lemma filler_fillerCount: "fillerCount_of filler_transcript = 4"
  by (simp add: filler_transcript_def fillerCount_of_def fillerWords_def regex_eval)

lemma filler_actionVerbCount: "actionVerbCount_of filler_transcript = 0"
  by (simp add: filler_transcript_def actionVerbCount_of_def actionVerbs_def regex_eval)

lemma filler_wordCount: "wordCount_of filler_transcript = 9"
  by (simp add: filler_transcript_def split_eval)

lemma filler_wpm: "wpm_of filler_transcript 60 = Finite 9"
  by (simp add: wpm_of_def filler_wordCount Math_round_def)

section \<open>The score of the analyzer\<close>

lemma fst_filler_rubric: "fst (filler_rubric f p) = fst p + filler_delta f"
  by (cases p) (simp add: filler_delta_def filler_rubric.simps)

lemma fst_pace_rubric: "fst (pace_rubric wpm p) = fst p + pace_delta wpm"
  by (cases p) (simp add: pace_delta_def pace_rubric.simps)

lemma fst_gaze_rubric: "fst (gaze_rubric g p) = fst p + gaze_delta g"
  by (cases p) (simp add: gaze_delta_def gaze_rubric.simps)

lemma fst_length_rubric: "fst (length_rubric n p) = fst p + length_delta n"
  by (cases p) (simp add: length_delta_def length_rubric.simps)

lemma fst_verb_rubric: "fst (verb_rubric v p) = fst p + verb_delta v"
  by (cases p) (simp add: verb_delta_def verb_rubric.simps)

lemma fst_rubrics: "fst (rubrics t d g) = rubric_sum t d g"
  by (simp add: rubrics_def rubric_sum_def fst_filler_rubric fst_pace_rubric fst_gaze_rubric
      fst_length_rubric fst_verb_rubric)

lemma score_analyzeTranscript:
  "score (analyzeTranscript t d g n) = clamp_score (fst (rubrics t d g))"
  by (simp add: analyzeTranscript_def Let_def)

lemma rubric_sum_ge_6: "6 \<le> rubric_sum t d g"
  by (simp add: rubric_sum_def filler_delta_def pace_delta_def gaze_delta_def length_delta_def
      verb_delta_def)

lemma scenario_rubric_sum: "rubric_sum scenario_transcript (9 / 2) 85 = 12"
  by (simp add: rubric_sum_def scenario_fillerCount scenario_actionVerbCount scenario_wordCount
      scenario_wpm filler_delta_def pace_delta_def gaze_delta_def length_delta_def verb_delta_def)

lemma filler_rubric_sum: "rubric_sum filler_transcript 60 0 = 6"
  by (simp add: rubric_sum_def filler_fillerCount filler_actionVerbCount filler_wordCount
      filler_wpm filler_delta_def pace_delta_def gaze_delta_def length_delta_def verb_delta_def)

text \<open>
  Claim C1. For every transcript, every duration above 0, every average gaze score and every
  face count, the returned score is the base score 6 plus the five rubric deltas, clamped
  to the interval from 1 to 10: a sum below 1 gives 1, a sum above 10 gives 10, and any
  other sum is returned as it is.
\<close>

theorem score_is_clamped_rubric_sum:
  assumes "0 < duration"
  shows "score (analyzeTranscript t duration g n) =
     (let total = rubric_sum t duration g
      in if total < 1 then 1 else if 10 < total then 10 else total)"
  by (simp add: score_analyzeTranscript fst_rubrics clamp_score_def Let_def)

text \<open>
  The scenario transcript at 4.5 seconds with gaze 85 has the sum 12, above 10, and the score
  returned is 10; the transcript with four filler words, spoken in a minute with gaze 0, has
  the sum 6, which is returned.
\<close>

theorem score_is_clamped_rubric_sum_witness:
  "(0::real) < 9 / 2 \<and> rubric_sum scenario_transcript (9 / 2) 85 = 12
     \<and> score (analyzeTranscript scenario_transcript (9 / 2) 85 0) = 10
     \<and> (0::real) < 60 \<and> rubric_sum filler_transcript 60 0 = 6
     \<and> score (analyzeTranscript filler_transcript 60 0 0) = 6"
proof -
  have short: "(0::real) < 9 / 2" and long: "(0::real) < 60" by simp_all
  show ?thesis
    using score_is_clamped_rubric_sum [OF short, of scenario_transcript 85 0]
      score_is_clamped_rubric_sum [OF long, of filler_transcript 0 0]
    by (simp add: scenario_rubric_sum filler_rubric_sum)
qed

text \<open>
  Claim C9. For every transcript, every duration above 0, every average gaze score and every
  face count, the score before the clamp is at least 6, so the lower bound 1 of the clamp
  is never attained and the returned score lies between 6 and 10.
\<close>

theorem score_at_least_6:
  assumes "0 < duration"
  shows "6 \<le> fst (rubrics t duration g) \<and> 6 \<le> score (analyzeTranscript t duration g n)
     \<and> score (analyzeTranscript t duration g n) \<le> 10"
  using rubric_sum_ge_6 [of t duration g]
  by (simp add: score_analyzeTranscript fst_rubrics clamp_score_def)

text \<open>
  The bound 6 is attained: four filler words, 9 words in a minute, gaze 0 and no action
  verb give the score 6.
\<close>

theorem score_at_least_6_witness:
  "(0::real) < 60 \<and> fst (rubrics filler_transcript 60 0) = 6
     \<and> score (analyzeTranscript filler_transcript 60 0 0) = 6"
proof -
  have positive: "(0::real) < 60" by simp
  have "fst (rubrics filler_transcript 60 0) = 6"
    by (simp add: fst_rubrics filler_rubric_sum)
  moreover have "score (analyzeTranscript filler_transcript 60 0 0) \<le> 6"
    by (simp add: score_analyzeTranscript fst_rubrics filler_rubric_sum clamp_score_def)
  ultimately show ?thesis
    using score_at_least_6 [OF positive, of filler_transcript 0 0] by simp
qed

section \<open>The metrics and the suggestions of the analyzer\<close>

lemma metrics_analyzeTranscript:
  "metrics (analyzeTranscript t d g n) =
     \<lparr>m_fillerWords = fillerCount_of t, m_wordsPerMinute = wpm_of t d,
      m_totalWords = wordCount_of t, m_eyeContactScore = g, m_facesDetected = n,
      m_actionVerbs = actionVerbCount_of t\<rparr>"
  by (simp add: analyzeTranscript_def Let_def)

lemma suggestions_analyzeTranscript:
  "suggestions (analyzeTranscript t d g n) = set_values [] (snd (rubrics t d g))"
  by (simp add: analyzeTranscript_def Let_def)

lemma set_values_prefix: "\<exists>ys. set_values seen xs = seen @ ys"
proof (induction xs arbitrary: seen)
  case Nil
  show ?case by simp
next
  case (Cons x xs)
  obtain ys where "set_values (if x \<in> set seen then seen else seen @ [x]) xs =
      (if x \<in> set seen then seen else seen @ [x]) @ ys"
    using Cons by blast
  then show ?case by (cases "x \<in> set seen") auto
qed

lemma hd_set_values: "hd (set_values [x] xs) = x"
proof -
  obtain ys where "set_values [x] xs = [x] @ ys" using set_values_prefix by blast
  then show ?thesis by simp
qed

lemma snd_filler_rubric: "snd (filler_rubric f p) = snd p @ snd (filler_rubric f (0, []))"
  by (cases p) (simp add: filler_rubric.simps)

lemma snd_pace_rubric: "snd (pace_rubric wpm p) = snd p @ snd (pace_rubric wpm (0, []))"
  by (cases p) (simp add: pace_rubric.simps)

lemma snd_gaze_rubric: "snd (gaze_rubric g p) = snd p @ snd (gaze_rubric g (0, []))"
  by (cases p) (simp add: gaze_rubric.simps)

lemma snd_length_rubric: "snd (length_rubric n p) = snd p @ snd (length_rubric n (0, []))"
  by (cases p) (simp add: length_rubric.simps)

lemma snd_verb_rubric: "snd (verb_rubric v p) = snd p @ snd (verb_rubric v (0, []))"
  by (cases p) (simp add: verb_rubric.simps)

lemma snd_rubrics:
  "snd (rubrics t d g) =
     snd (filler_rubric (fillerCount_of t) (0, [])) @ snd (pace_rubric (wpm_of t d) (0, []))
     @ snd (gaze_rubric g (0, [])) @ snd (length_rubric (wordCount_of t) (0, []))
     @ snd (verb_rubric (actionVerbCount_of t) (0, []))"
proof -
  have "snd (rubrics t d g) =
      snd (length_rubric (wordCount_of t) (gaze_rubric g (pace_rubric (wpm_of t d)
        (filler_rubric (fillerCount_of t) (6, [])))))
      @ snd (verb_rubric (actionVerbCount_of t) (0, []))"
    unfolding rubrics_def by (rule snd_verb_rubric)
  also have "snd (length_rubric (wordCount_of t) (gaze_rubric g (pace_rubric (wpm_of t d)
        (filler_rubric (fillerCount_of t) (6, []))))) =
      snd (gaze_rubric g (pace_rubric (wpm_of t d) (filler_rubric (fillerCount_of t) (6, []))))
      @ snd (length_rubric (wordCount_of t) (0, []))"
    by (rule snd_length_rubric)
  also have "snd (gaze_rubric g (pace_rubric (wpm_of t d) (filler_rubric (fillerCount_of t) (6, [])))) =
      snd (pace_rubric (wpm_of t d) (filler_rubric (fillerCount_of t) (6, [])))
      @ snd (gaze_rubric g (0, []))"
    by (rule snd_gaze_rubric)
  also have "snd (pace_rubric (wpm_of t d) (filler_rubric (fillerCount_of t) (6, []))) =
      snd (filler_rubric (fillerCount_of t) (6, [])) @ snd (pace_rubric (wpm_of t d) (0, []))"
    by (rule snd_pace_rubric)
  also have "snd (filler_rubric (fillerCount_of t) (6, [])) =
      snd (filler_rubric (fillerCount_of t) (0, []))"
    using snd_filler_rubric [of "fillerCount_of t" "(6, [])"] by simp
  finally show ?thesis by simp
qed

lemma length_filler_pushed: "length (snd (filler_rubric f (0, []))) = 1"
  by (simp add: filler_rubric.simps)

lemma length_gaze_pushed: "length (snd (gaze_rubric g (0, []))) = 1"
  by (simp add: gaze_rubric.simps)

lemma length_length_pushed: "length (snd (length_rubric n (0, []))) = 1"
  by (simp add: length_rubric.simps)

lemma length_verb_pushed: "length (snd (verb_rubric v (0, []))) = 1"
  by (simp add: verb_rubric.simps)

lemma length_pace_pushed:
  "length (snd (pace_rubric wpm (0, []))) = (if pace_silent wpm then 0 else 1)"
  by (cases wpm) (auto simp: pace_rubric.simps pace_silent_def)

lemma length_snd_rubrics:
  "length (snd (rubrics t d g)) = (if pace_silent (wpm_of t d) then 4 else 5)"
  by (simp add: snd_rubrics length_filler_pushed length_gaze_pushed length_length_pushed
      length_verb_pushed length_pace_pushed)

lemma hd_suggestions:
  "hd (suggestions (analyzeTranscript t d g n)) = hd (snd (filler_rubric (fillerCount_of t) (0, [])))"
proof -
  obtain x where x: "snd (filler_rubric (fillerCount_of t) (0, [])) = [x]"
    using length_filler_pushed [of "fillerCount_of t"]
    by (cases "snd (filler_rubric (fillerCount_of t) (0, []))") auto
  show ?thesis
    by (simp add: suggestions_analyzeTranscript snd_rubrics x hd_set_values)
qed

text \<open>
  Claim C2, as stated: for the transcript "I achieved great results and led the team to
  success", 4.5 seconds and gaze 85, the analyzer computes 120 words per minute. It does
  not: the transcript has 10 words, not 9.
\<close>

theorem scenario_wpm_counterexample:
  "m_wordsPerMinute (metrics (analyzeTranscript scenario_transcript (9 / 2) 85 0)) \<noteq> Finite 120"
  by (simp add: metrics_analyzeTranscript scenario_wpm)

text \<open>
  Claim C2, amended. For that transcript, 4.5 seconds and gaze 85 the analyzer counts 10
  words and computes 133 words per minute (pace bonus +1), 0 filler words (+2), gaze bonus
  +2, a length under 50 words (+0) and 2 action verbs (+1); the sum is 12 and the returned
  score is 10.
\<close>

theorem scenario_analysis:
  "m_totalWords (metrics (analyzeTranscript scenario_transcript (9 / 2) 85 n)) = 10
   \<and> m_wordsPerMinute (metrics (analyzeTranscript scenario_transcript (9 / 2) 85 n)) = Finite 133
   \<and> fst (pace_rubric (Finite 133) (points, pushed)) = points + 1
   \<and> m_fillerWords (metrics (analyzeTranscript scenario_transcript (9 / 2) 85 n)) = 0
   \<and> fst (filler_rubric 0 (points, pushed)) = points + 2
   \<and> fst (gaze_rubric 85 (points, pushed)) = points + 2
   \<and> fst (length_rubric 10 (points, pushed)) = points
   \<and> m_actionVerbs (metrics (analyzeTranscript scenario_transcript (9 / 2) 85 n)) = 2
   \<and> fst (verb_rubric 2 (points, pushed)) = points + 1
   \<and> fst (rubrics scenario_transcript (9 / 2) 85) = 12
   \<and> score (analyzeTranscript scenario_transcript (9 / 2) 85 n) = 10"
  by (simp add: metrics_analyzeTranscript scenario_wordCount scenario_wpm scenario_fillerCount
      scenario_actionVerbCount fst_rubrics scenario_rubric_sum score_analyzeTranscript
      clamp_score_def pace_rubric.simps filler_rubric.simps gaze_rubric.simps
      length_rubric.simps verb_rubric.simps)

text \<open>The scenario with a face count of 0, the base score 6 and nothing pushed yet.\<close>

theorem scenario_analysis_witness:
  "fst (rubrics scenario_transcript (9 / 2) 85) = 12
   \<and> score (analyzeTranscript scenario_transcript (9 / 2) 85 0) = 10"
  using scenario_analysis [of 0 6 "[]"] by simp

text \<open>
  Claim C8, as stated: every input leaves exactly five suggestions before the removal of
  duplicates. The scenario transcript spoken in 6 seconds has 100 words per minute, where
  the pace rubric pushes nothing, and leaves four.
\<close>

theorem five_suggestions_counterexample:
  "wpm_of scenario_transcript 6 = Finite 100
   \<and> length (snd (rubrics scenario_transcript 6 85)) = 4
   \<and> length (snd (rubrics scenario_transcript 6 85)) \<noteq> 5"
  by (simp add: length_snd_rubrics scenario_wpm_slow pace_silent_def)

text \<open>
  Claim C8, amended. For every input the suggestions before the removal of duplicates are
  those of the rubrics in the fixed order filler, pace, gaze, length, action verbs. The
  filler, gaze, length and action verb rubrics push exactly one string each; the pace rubric
  pushes one string, or none when the pace is from 80 to 119 or from 151 to 180. So the list
  has five elements, or four in those two bands.
\<close>

theorem suggestions_by_rubric:
  "snd (rubrics t duration g) =
     snd (filler_rubric (fillerCount_of t) (0, [])) @ snd (pace_rubric (wpm_of t duration) (0, []))
     @ snd (gaze_rubric g (0, [])) @ snd (length_rubric (wordCount_of t) (0, []))
     @ snd (verb_rubric (actionVerbCount_of t) (0, []))
   \<and> length (snd (filler_rubric (fillerCount_of t) (0, []))) = 1
   \<and> length (snd (pace_rubric (wpm_of t duration) (0, []))) =
       (if pace_silent (wpm_of t duration) then 0 else 1)
   \<and> length (snd (gaze_rubric g (0, []))) = 1
   \<and> length (snd (length_rubric (wordCount_of t) (0, []))) = 1
   \<and> length (snd (verb_rubric (actionVerbCount_of t) (0, []))) = 1
   \<and> length (snd (rubrics t duration g)) = (if pace_silent (wpm_of t duration) then 4 else 5)"
  by (intro conjI snd_rubrics length_filler_pushed length_pace_pushed length_gaze_pushed
      length_length_pushed length_verb_pushed length_snd_rubrics)

text \<open>Five suggestions at 133 words per minute, four at 100.\<close>

theorem suggestions_by_rubric_witness:
  "length (snd (rubrics scenario_transcript (9 / 2) 85)) = 5
   \<and> length (snd (rubrics scenario_transcript 6 85)) = 4"
  using suggestions_by_rubric [of scenario_transcript "9 / 2" 85]
    suggestions_by_rubric [of scenario_transcript 6 85]
  by (simp add: scenario_wpm scenario_wpm_slow pace_silent_def)

section \<open>The filler rubric\<close>

text \<open>
  The regular expressions of the analyzer find the whole-word occurrences of the
  specification: the comparison of canonical code units is the comparison without case,
  \<open>\b\<close> is the word boundary, and the matches of one word cannot overlap, so that the
  search from left to right finds every occurrence.
\<close>

lemma canonicalize_lower_case:
  "(canonicalize p = canonicalize c) = (lower_case p = lower_case c)"
  by (auto simp: canonicalize_def lower_case_def)

lemma is_wordchar_word_character: "is_wordchar c = word_character c"
  by (auto simp: is_wordchar_def word_character_def)

lemma is_wordchar_canonicalize:
  "canonicalize p = canonicalize c \<Longrightarrow> is_wordchar p = is_wordchar c"
  by (auto simp: canonicalize_def is_wordchar_def split: if_splits)

lemma literal_at_lower_case:
  "literal_at word t =
     (length word \<le> length t \<and> map lower_case (take (length word) t) = map lower_case word)"
  by (induction word t rule: literal_at.induct) (auto simp: canonicalize_lower_case)

lemma literal_at_nth:
  "literal_at word t \<Longrightarrow> k < length word \<Longrightarrow> canonicalize (word ! k) = canonicalize (t ! k)"
proof (induction word t arbitrary: k rule: literal_at.induct)
  case (3 p ps c cs)
  then show ?case by (cases k) auto
qed simp_all

lemma literal_at_length: "literal_at word t \<Longrightarrow> length word \<le> length t"
  by (simp add: literal_at_lower_case)

lemma word_boundary_boundary_at: "i \<le> length s \<Longrightarrow> word_boundary s i = boundary_at s i"
  by (auto simp: word_boundary_def boundary_at_def is_word_before_def is_word_at_def
      is_wordchar_word_character)

lemma match_at_occurs_at: "i \<le> length s \<Longrightarrow> match_at word s i = occurs_at word s i"
proof (cases "i + length word \<le> length s")
  case True
  assume i: "i \<le> length s"
  with True have "length word \<le> length s - i" by arith
  with True i show ?thesis
    by (simp add: match_at_def occurs_at_def literal_at_lower_case word_boundary_boundary_at
        conj_commute conj_left_commute)
next
  case False
  assume i: "i \<le> length s"
  with False have "\<not> length word \<le> length s - i" by arith
  then have "\<not> literal_at word (drop i s)" by (simp add: literal_at_lower_case)
  with False show ?thesis by (simp add: match_at_def occurs_at_def)
qed

lemma no_match_inside:
  assumes "no_inner_start word" and "match_at word s i" and "i < j" and "j < i + length word"
  shows "\<not> match_at word s j"
proof
  assume again: "match_at word s j"
  define k where "k = j - i"
  have k: "0 < k" "k < length word" "j = i + k" using assms(3,4) by (simp_all add: k_def)
  have here: "literal_at word (drop i s)" using assms(2) by (simp add: match_at_def)
  have "length word \<le> length s - i" using literal_at_length [OF here] by simp
  with k have len: "i + length word \<le> length s" by arith
  have at: "canonicalize (word ! m) = canonicalize (s ! (i + m))" if "m < length word" for m
    using literal_at_nth [OF here that] len that by simp
  have first: "canonicalize (word ! 0) = canonicalize (s ! j)"
  proof -
    have "literal_at word (drop j s)" using again by (simp add: match_at_def)
    then have "canonicalize (word ! 0) = canonicalize (drop j s ! 0)"
      using k by (intro literal_at_nth) auto
    moreover have "j < length s" using k len by simp
    ultimately show ?thesis by simp
  qed
  have "canonicalize (word ! k) = canonicalize (s ! j)" using at [of k] k by simp
  then have same: "canonicalize (word ! k) = canonicalize (word ! 0)" using first by simp
  have "k - 1 < length word" and "i + (k - 1) = j - 1" using k by simp_all
  then have "canonicalize (word ! (k - 1)) = canonicalize (s ! (j - 1))"
    using at [of "k - 1"] by simp
  then have "is_wordchar (word ! (k - 1)) = is_wordchar (s ! (j - 1))"
    by (rule is_wordchar_canonicalize)
  moreover have "is_wordchar (word ! k) = is_wordchar (s ! j)"
    using \<open>canonicalize (word ! k) = canonicalize (s ! j)\<close> by (rule is_wordchar_canonicalize)
  moreover have "is_wordchar (s ! (j - 1)) \<noteq> is_wordchar (s ! j)"
    using again k len by (auto simp: match_at_def word_boundary_def is_word_before_def is_word_at_def)
  ultimately have "is_wordchar (word ! (k - 1)) \<noteq> is_wordchar (word ! k)" by simp
  with same assms(1) k show False by (auto simp: no_inner_start_def)
qed

lemma match_count_filter:
  assumes "word \<noteq> []" and "no_inner_start word"
  shows "match_count word s i = length (filter (match_at word s) [i..<Suc (length s)])"
  using assms
proof (induction word s i rule: match_count.induct)
  case (1 word s i)
  show ?case
  proof (cases "length s < i")
    case True
    then show ?thesis by (simp add: match_count.simps del: upt_Suc)
  next
    case False
    then have i: "i \<le> length s" by simp
    show ?thesis
    proof (cases "match_at word s i")
      case True
      then have "literal_at word (drop i s)" by (simp add: match_at_def)
      then have "length word \<le> length s - i" using literal_at_length by fastforce
      moreover have pos: "0 < length word" using "1.prems"(1) by simp
      ultimately have len: "i + length word \<le> length s" by arith
      have split: "[i..<Suc (length s)] =
          i # [Suc i..<i + length word] @ [i + length word..<Suc (length s)]"
      proof -
        have "[i..<Suc (length s)] = i # [Suc i..<Suc (length s)]"
          using i by (simp add: upt_conv_Cons del: upt_Suc)
        moreover have "[Suc i..<Suc (length s)] =
            [Suc i..<i + length word] @ [i + length word..<Suc (length s)]"
        proof -
          have "Suc i \<le> i + length word" using pos by arith
          then have "[Suc i..<i + length word + (Suc (length s) - (i + length word))] =
              [Suc i..<i + length word]
              @ [i + length word..<i + length word + (Suc (length s) - (i + length word))]"
            by (rule upt_add_eq_append)
          moreover have "i + length word + (Suc (length s) - (i + length word)) = Suc (length s)"
            using len by simp
          ultimately show ?thesis by (simp del: upt_Suc)
        qed
        ultimately show ?thesis by (simp del: upt_Suc)
      qed
      have none: "filter (match_at word s) [Suc i..<i + length word] = []"
        using no_match_inside [OF "1.prems"(2) True] by (auto simp: filter_empty_conv)
      have "match_count word s i = 1 + match_count word s (i + length word)"
        using False True "1.prems"(1) by (subst match_count.simps) simp
      also have "\<dots> = 1 + length (filter (match_at word s) [i + length word..<Suc (length s)])"
        using "1.IH"(1) [OF False True] "1.prems" by (simp del: upt_Suc)
      also have "\<dots> = length (filter (match_at word s) [i..<Suc (length s)])"
        by (subst split) (simp add: none True del: upt_Suc)
      finally show ?thesis .
    next
      case no: False
      have "match_count word s i = match_count word s (i + 1)"
        using False no by (subst match_count.simps) simp
      also have "\<dots> = length (filter (match_at word s) [i + 1..<Suc (length s)])"
        using "1.IH"(2) [OF False no] "1.prems" by (simp del: upt_Suc)
      finally show ?thesis using no i by (simp add: upt_conv_Cons del: upt_Suc)
    qed
  qed
qed

lemma match_count_whole_word_count:
  assumes "word \<noteq> []" and "no_inner_start word"
  shows "match_count word s 0 = whole_word_count word s"
proof -
  have "filter (match_at word s) [0..<Suc (length s)] = filter (occurs_at word s) [0..<Suc (length s)]"
    by (rule filter_cong) (auto simp: match_at_occurs_at)
  then show ?thesis
    using match_count_filter [OF assms, of s 0] by (simp add: whole_word_count_def)
qed

lemma foldl_count: "foldl (\<lambda>count word. count + f word) a ws = a + sum_list (map f ws)"
  by (induction ws arbitrary: a) (simp_all add: add.assoc)

lemma count_lexicon_lexicon_count:
  assumes "\<forall>word\<in>set lexicon. word \<noteq> [] \<and> no_inner_start word"
  shows "count_lexicon lexicon t = lexicon_count lexicon t"
proof -
  have "map (\<lambda>word. match_count word t 0) lexicon = map (\<lambda>word. whole_word_count word t) lexicon"
    using assms by (intro map_cong) (auto simp: match_count_whole_word_count)
  then have "sum_list (map (\<lambda>word. match_count word t 0) lexicon) =
      sum_list (map (\<lambda>word. whole_word_count word t) lexicon)"
    by (rule arg_cong)
  then show ?thesis
    by (simp only: count_lexicon_def lexicon_count_def foldl_count add_0)
qed

lemma fillerWords_lexicon: "fillerWords = filler_lexicon"
  by (simp add: fillerWords_def filler_lexicon_def)

lemma filler_lexicon_words: "\<forall>word\<in>set filler_lexicon. word \<noteq> [] \<and> no_inner_start word"
  by (simp add: filler_lexicon_def ascii_def no_inner_start_def is_wordchar_def canonicalize_def
      less_Suc_eq eval_nat_numeral)

lemma fillerCount_of_lexicon_count: "fillerCount_of t = lexicon_count filler_lexicon t"
  using count_lexicon_lexicon_count [OF filler_lexicon_words]
  by (simp add: fillerCount_of_def fillerWords_lexicon)

lemma mixed_fillerCount: "fillerCount_of mixed_transcript = 4"
  by (simp add: mixed_transcript_def fillerCount_of_def fillerWords_def regex_eval)

lemma like_fillerCount: "fillerCount_of like_transcript = 1"
  by (simp add: like_transcript_def fillerCount_of_def fillerWords_def regex_eval)

lemma capital_fillerCount: "fillerCount_of (ascii ''Um'') = 1"
  by (simp add: fillerCount_of_def fillerWords_def regex_eval)

lemma umbrella_fillerCount: "fillerCount_of (ascii ''umbrella'') = 0"
  by (simp add: fillerCount_of_def fillerWords_def regex_eval)

lemma digits_4: "digits 4 = ascii ''4''"
  by (simp add: digits.simps ascii_def)

text \<open>
  Claim C3. For every transcript, the count \<open>f\<close> of the analyzer is the total number of
  case-insensitive whole-word occurrences of the words "um", "uh", "like", "you know",
  "basically", "actually" and "literally". If \<open>f = 0\<close> the filler rubric adds 2 and pushes
  exactly the string "Excellent! No filler words detected" after the check mark; if \<open>f\<close>
  is 1 or 2 it adds 1; if \<open>f > 2\<close> it adds nothing and pushes "Too many filler words (f
  found) - Speak with confidence" after the cross mark. The string pushed is the first
  suggestion returned. A transcript with "um" twice and "uh" twice has \<open>f = 4\<close> and that
  suggestion with the number 4, in lower case between spaces as well as in upper case and
  next to punctuation.
\<close>

theorem filler_rubric_cases:
  "fillerCount_of t = lexicon_count filler_lexicon t
   \<and> (lexicon_count filler_lexicon t = 0 \<longrightarrow>
      filler_rubric (fillerCount_of t) (points, pushed) =
        (points + 2, pushed @ [check_mark @ ascii '' Excellent! No filler words detected''])
      \<and> hd (suggestions (analyzeTranscript t duration g n)) =
        check_mark @ ascii '' Excellent! No filler words detected'')
   \<and> (1 \<le> lexicon_count filler_lexicon t \<and> lexicon_count filler_lexicon t \<le> 2 \<longrightarrow>
      fst (filler_rubric (fillerCount_of t) (points, pushed)) = points + 1)
   \<and> (2 < lexicon_count filler_lexicon t \<longrightarrow>
      filler_rubric (fillerCount_of t) (points, pushed) =
        (points, pushed @ [cross_mark @ ascii '' Too many filler words (''
           @ digits (lexicon_count filler_lexicon t) @ ascii '' found) - Speak with confidence''])
      \<and> hd (suggestions (analyzeTranscript t duration g n)) =
        cross_mark @ ascii '' Too many filler words ('' @ digits (lexicon_count filler_lexicon t)
          @ ascii '' found) - Speak with confidence'')
   \<and> lexicon_count filler_lexicon filler_transcript = 4
   \<and> hd (suggestions (analyzeTranscript filler_transcript duration g n)) =
        cross_mark @ ascii '' Too many filler words (4 found) - Speak with confidence''
   \<and> lexicon_count filler_lexicon mixed_transcript = 4
   \<and> hd (suggestions (analyzeTranscript mixed_transcript duration g n)) =
        cross_mark @ ascii '' Too many filler words (4 found) - Speak with confidence''"
proof (intro conjI impI)
  show "fillerCount_of t = lexicon_count filler_lexicon t"
    by (rule fillerCount_of_lexicon_count)
next
  assume "lexicon_count filler_lexicon t = 0"
  then have "fillerCount_of t = 0" by (simp add: fillerCount_of_lexicon_count)
  then show "filler_rubric (fillerCount_of t) (points, pushed) =
      (points + 2, pushed @ [check_mark @ ascii '' Excellent! No filler words detected''])"
    and "hd (suggestions (analyzeTranscript t duration g n)) =
      check_mark @ ascii '' Excellent! No filler words detected''"
    by (simp_all add: hd_suggestions filler_rubric.simps)
next
  assume "1 \<le> lexicon_count filler_lexicon t \<and> lexicon_count filler_lexicon t \<le> 2"
  then have "1 \<le> fillerCount_of t \<and> fillerCount_of t \<le> 2"
    by (simp add: fillerCount_of_lexicon_count)
  then show "fst (filler_rubric (fillerCount_of t) (points, pushed)) = points + 1"
    by (simp add: filler_rubric.simps)
next
  assume "2 < lexicon_count filler_lexicon t"
  then have many: "2 < fillerCount_of t" by (simp add: fillerCount_of_lexicon_count)
  have same: "digits (lexicon_count filler_lexicon t) = digits (fillerCount_of t)"
    by (simp add: fillerCount_of_lexicon_count)
  from many show "filler_rubric (fillerCount_of t) (points, pushed) =
      (points, pushed @ [cross_mark @ ascii '' Too many filler words (''
         @ digits (lexicon_count filler_lexicon t) @ ascii '' found) - Speak with confidence''])"
    and "hd (suggestions (analyzeTranscript t duration g n)) =
      cross_mark @ ascii '' Too many filler words ('' @ digits (lexicon_count filler_lexicon t)
        @ ascii '' found) - Speak with confidence''"
    unfolding same by (simp_all add: hd_suggestions filler_rubric.simps)
next
  show "lexicon_count filler_lexicon filler_transcript = 4"
    using fillerCount_of_lexicon_count [of filler_transcript] by (simp add: filler_fillerCount)
next
  show "hd (suggestions (analyzeTranscript filler_transcript duration g n)) =
      cross_mark @ ascii '' Too many filler words (4 found) - Speak with confidence''"
    by (simp add: hd_suggestions filler_fillerCount filler_rubric.simps digits_4 ascii_def)
next
  show "lexicon_count filler_lexicon mixed_transcript = 4"
    using fillerCount_of_lexicon_count [of mixed_transcript] by (simp add: mixed_fillerCount)
next
  show "hd (suggestions (analyzeTranscript mixed_transcript duration g n)) =
      cross_mark @ ascii '' Too many filler words (4 found) - Speak with confidence''"
    by (simp add: hd_suggestions mixed_fillerCount filler_rubric.simps digits_4 ascii_def)
qed

text \<open>
  The three cases at transcripts with 0, 1 and 4 occurrences; "Um" is an occurrence of "um",
  and "umbrella" has none.
\<close>

theorem filler_rubric_cases_witness:
  "lexicon_count filler_lexicon scenario_transcript = 0
   \<and> hd (suggestions (analyzeTranscript scenario_transcript (9 / 2) 85 0)) =
        check_mark @ ascii '' Excellent! No filler words detected''
   \<and> lexicon_count filler_lexicon like_transcript = 1
   \<and> fst (filler_rubric (fillerCount_of like_transcript) (6, [])) = 7
   \<and> lexicon_count filler_lexicon filler_transcript = 4
   \<and> filler_rubric (fillerCount_of filler_transcript) (6, []) =
        (6, [cross_mark @ ascii '' Too many filler words (4 found) - Speak with confidence''])
   \<and> lexicon_count filler_lexicon (ascii ''Um'') = 1
   \<and> lexicon_count filler_lexicon (ascii ''umbrella'') = 0"
proof -
  note scenario = filler_rubric_cases [of scenario_transcript 6 "[]" "9 / 2" 85 0]
  note like = filler_rubric_cases [of like_transcript 6 "[]" 1 0 0]
  note filler = filler_rubric_cases [of filler_transcript 6 "[]" 1 0 0]
  note capital = filler_rubric_cases [of "ascii ''Um''" 6 "[]" 1 0 0]
  note umbrella = filler_rubric_cases [of "ascii ''umbrella''" 6 "[]" 1 0 0]
  have none: "lexicon_count filler_lexicon scenario_transcript = 0"
    using scenario [THEN conjunct1] scenario_fillerCount by simp
  have one: "lexicon_count filler_lexicon like_transcript = 1"
    using like [THEN conjunct1] like_fillerCount by simp
  have four: "lexicon_count filler_lexicon filler_transcript = 4"
    using filler [THEN conjunct1] filler_fillerCount by simp
  have "hd (suggestions (analyzeTranscript scenario_transcript (9 / 2) 85 0)) =
        check_mark @ ascii '' Excellent! No filler words detected''"
    using scenario none by blast
  moreover have "fst (filler_rubric (fillerCount_of like_transcript) (6, [])) = 7"
  proof -
    have "1 \<le> lexicon_count filler_lexicon like_transcript
        \<and> lexicon_count filler_lexicon like_transcript \<le> 2"
      using one by simp
    then have "fst (filler_rubric (fillerCount_of like_transcript) (6, [])) = 6 + 1"
      using like by blast
    then show ?thesis by simp
  qed
  moreover have "filler_rubric (fillerCount_of filler_transcript) (6, []) =
        (6, [cross_mark @ ascii '' Too many filler words (4 found) - Speak with confidence''])"
  proof -
    have "2 < lexicon_count filler_lexicon filler_transcript" using four by simp
    then have "filler_rubric (fillerCount_of filler_transcript) (6, []) =
        (6, [] @ [cross_mark @ ascii '' Too many filler words (''
           @ digits (lexicon_count filler_lexicon filler_transcript)
           @ ascii '' found) - Speak with confidence''])"
      using filler by blast
    then show ?thesis by (simp add: four digits_4 ascii_def)
  qed
  moreover have "lexicon_count filler_lexicon (ascii ''Um'') = 1"
    using capital [THEN conjunct1] capital_fillerCount by simp
  moreover have "lexicon_count filler_lexicon (ascii ''umbrella'') = 0"
    using umbrella [THEN conjunct1] umbrella_fillerCount by simp
  ultimately show ?thesis using none one four by blast
qed

section \<open>The session handler\<close>

lemma reduce_add_scores: "reduce_add a (map Score xs) = Inr (a + sum_list xs)"
  by (induction xs arbitrary: a) simp_all


lemma avgEyeContact_of_scores:
  "avgEyeContact_of (map Score xs) =
     Inr (if xs = [] then 0 else round (real_of_int (sum_list xs) / real (length xs)))"
  by (simp add: avgEyeContact_of_def reduce_add_scores Math_round_def round_def)




text \<open>
  Claim C4. Processing a stop event leaves the session data as it is and, unless a stored
  score has no number, sends the analysis of the transcript, the elapsed seconds, the
  average gaze score and the face count. The average gaze score passed to the analyzer is
  the integer 0 when there is no gaze sample, and the arithmetic mean of the samples,
  rounded to the nearest integer, when there are integer samples.
\<close>

theorem stop_average_gaze:
  "on_message now s (Parsed Stop) =
     (s, case avgEyeContact_of (eyeContactScores s) of
           Inl error \<Rightarrow> [Error error]
         | Inr avgEyeContact \<Rightarrow>
             [FinalAnalysis (trim (transcript s))
                (analyzeTranscript (transcript s) (real_of_int (now - startTime s) / 1000)
                   avgEyeContact (facesDetected s))])
   \<and> (eyeContactScores s = [] \<longrightarrow> avgEyeContact_of (eyeContactScores s) = Inr 0)
   \<and> (eyeContactScores s = map Score xs \<and> xs \<noteq> [] \<longrightarrow>
        avgEyeContact_of (eyeContactScores s) =
          Inr (round (real_of_int (sum_list xs) / real (length xs))))"
proof (intro conjI impI)
  show "on_message now s (Parsed Stop) =
     (s, case avgEyeContact_of (eyeContactScores s) of
           Inl error \<Rightarrow> [Error error]
         | Inr avgEyeContact \<Rightarrow>
             [FinalAnalysis (trim (transcript s))
                (analyzeTranscript (transcript s) (real_of_int (now - startTime s) / 1000)
                   avgEyeContact (facesDetected s))])"
    by (simp add: on_message_def stop_analysis_def Let_def split: sum.splits)
next
  assume "eyeContactScores s = []"
  then show "avgEyeContact_of (eyeContactScores s) = Inr 0"
    by (simp add: avgEyeContact_of_def)
next
  assume "eyeContactScores s = map Score xs \<and> xs \<noteq> []"
  then show "avgEyeContact_of (eyeContactScores s) =
      Inr (round (real_of_int (sum_list xs) / real (length xs)))"
    by (simp add: avgEyeContact_of_scores)
qed

text \<open>
  No sample gives 0; the samples 90 and 75 have the mean 82.5, rounded to 83, and the
  analysis sent has this gaze score.
\<close>

theorem stop_average_gaze_witness:
  "avgEyeContact_of (eyeContactScores (fresh_session 0)) = Inr 0
   \<and> eyeContactScores (fresh_session 0\<lparr>eyeContactScores := [Score 90, Score 75]\<rparr>) =
       map Score [90, 75]
   \<and> avgEyeContact_of
       (eyeContactScores (fresh_session 0\<lparr>eyeContactScores := [Score 90, Score 75]\<rparr>)) = Inr 83
   \<and> snd (on_message 5000 (fresh_session 0\<lparr>eyeContactScores := [Score 90, Score 75]\<rparr>)
         (Parsed Stop)) =
       [FinalAnalysis [] (analyzeTranscript [] 5 83 0)]"
proof -
  have none: "eyeContactScores (fresh_session 0) = []"
    by (simp add: fresh_session_def)
  have two: "eyeContactScores (fresh_session 0\<lparr>eyeContactScores := [Score 90, Score 75]\<rparr>) =
       map Score [90, 75] \<and> [90, 75] \<noteq> ([] :: int list)"
    by simp
  have mean: "round (real_of_int (sum_list [90, 75]) / real (length [90, 75 :: int])) = 83"
    by (simp add: round_def)
  show ?thesis
    using none two mean stop_average_gaze [of 5000 "fresh_session 0" "[]"]
      stop_average_gaze [of 5000 "fresh_session 0\<lparr>eyeContactScores := [Score 90, Score 75]\<rparr>"
        "[90, 75]"]
    by (simp add: fresh_session_def trim_def)
qed

text \<open>
  Claim C6. Whatever the session data are before, processing a start event leaves an empty
  transcript, an empty list of gaze scores, the face count 0 and the current time as start
  time, and sends the status message.
\<close>

theorem start_resets_session:
  "on_message now s (Parsed Start) =
     (\<lparr>transcript = [], startTime = now, eyeContactScores = [], facesDetected = 0\<rparr>,
      [Status (ascii ''Recording started - Look at the camera and speak naturally!'')])"
  by (simp add: on_message_def fresh_session_def)

text \<open>A session with a transcript, two gaze samples and two detected faces is reset.\<close>

theorem start_resets_session_witness:
  "fst (on_message 9000
     \<lparr>transcript = ascii '' hello'', startTime = 1000, eyeContactScores = [Score 90, Score 40],
      facesDetected = 2\<rparr> (Parsed Start)) =
   \<lparr>transcript = [], startTime = 9000, eyeContactScores = [], facesDetected = 0\<rparr>"
  using start_resets_session [of 9000 "\<lparr>transcript = ascii '' hello'', startTime = 1000,
      eyeContactScores = [Score 90, Score 40], facesDetected = 2\<rparr>"]
  by simp







section \<open>The transcript of a session and its word count\<close>

lemma count_words_dropWhile:
  "count_words_from False (dropWhile is_space cs) = count_words_from False cs"
  by (induction cs) simp_all

lemma count_words_at_word_start:
  "d = [] \<or> \<not> is_space (hd d) \<Longrightarrow>
     count_words_from False d = (if d = [] then 0 else 1) + count_words_from True d"
  by (cases d) auto

lemma dropWhile_space_start:
  "dropWhile is_space cs = [] \<or> \<not> is_space (hd (dropWhile is_space cs))"
  using hd_dropWhile [of is_space cs] by blast

lemma ends_with_space_Cons:
  assumes "is_space c" and "d = dropWhile is_space cs"
  shows "ends_with_space (c # cs) = (d = [] \<or> ends_with_space d)"
proof (cases "d = []")
  case True
  with assms(2) have "dropWhile is_space cs = []" by simp
  then have all: "\<forall>x\<in>set cs. is_space x" by simp
  have "is_space (last (c # cs))"
  proof (cases "cs = []")
    case True
    with assms(1) show ?thesis by simp
  next
    case False
    with all show ?thesis by simp
  qed
  with True show ?thesis by (simp add: ends_with_space_def)
next
  case False
  with assms(2) have "cs \<noteq> []" by auto
  have "cs = takeWhile is_space cs @ d" using assms(2) by simp
  then have "last cs = last d"
    using False by (metis last_appendR)
  with False \<open>cs \<noteq> []\<close> show ?thesis by (simp add: ends_with_space_def)
qed

lemma length_split_pieces:
  "length (split_pieces piece t) =
     count_words_from True t + 1 + (if ends_with_space t then 1 else 0)"
proof (induction piece t rule: split_pieces.induct)
  case (1 piece)
  show ?case by (simp add: ends_with_space_def)
next
  case (2 piece c cs)
  show ?case
  proof (cases "is_space c")
    case True
    define d where "d = dropWhile is_space cs"
    have start: "d = [] \<or> \<not> is_space (hd d)"
      unfolding d_def by (rule dropWhile_space_start)
    have words: "count_words_from False cs = (if d = [] then 0 else 1) + count_words_from True d"
      using count_words_dropWhile [of cs] count_words_at_word_start [OF start]
      unfolding d_def by simp
    have ends: "ends_with_space (c # cs) = (d = [] \<or> ends_with_space d)"
      using True d_def by (rule ends_with_space_Cons)
    have "length (split_pieces piece (c # cs)) = 1 + length (split_pieces [] d)"
      using True unfolding d_def by simp
    also have "\<dots> = 1 + (count_words_from True d + 1 + (if ends_with_space d then 1 else 0))"
      using 2(1) [OF True] unfolding d_def by simp
    also have "\<dots> = count_words_from True (c # cs) + 1 + (if ends_with_space (c # cs) then 1 else 0)"
    proof (cases "d = []")
      case Nil: True
      then have "\<not> ends_with_space d" by (simp add: ends_with_space_def)
      with Nil True words ends show ?thesis by simp
    next
      case False
      with True words ends show ?thesis by simp
    qed
    finally show ?thesis .
  next
    case False
    have "ends_with_space (c # cs) = ends_with_space cs"
      using False by (simp add: ends_with_space_def)
    with False 2(2) [OF False] show ?thesis by simp
  qed
qed

lemma wordCount_of_words:
  "wordCount_of t = count_words_from True t + 1 + (if ends_with_space t then 1 else 0)"
  by (simp add: wordCount_of_def split_whitespace_def length_split_pieces)

lemma wordCount_of_leading_space:
  "wordCount_of (32 # t) = count_words (32 # t) + (if ends_with_space (32 # t) then 2 else 1)"
  by (simp add: wordCount_of_words count_words_def is_space_def)

lemma count_words_from_append:
  "r = [] \<or> is_space (hd r) \<Longrightarrow>
     count_words_from inside (xs @ r) = count_words_from inside xs + count_words_from False r"
proof (induction xs arbitrary: inside)
  case Nil
  then show ?case by (cases r) auto
next
  case (Cons x xs)
  then show ?case by simp
qed

lemma count_words_joined: "count_words (joined fs) = sum_list (map count_words fs)"
proof (induction fs)
  case Nil
  show ?case by (simp add: joined_def count_words_def)
next
  case (Cons f fs)
  have r: "joined fs = [] \<or> is_space (hd (joined fs))"
    by (cases fs) (simp_all add: joined_def is_space_def)
  have "count_words (joined (f # fs)) = count_words_from False (f @ joined fs)"
    by (simp add: joined_def count_words_def is_space_def)
  also have "\<dots> = count_words f + count_words (joined fs)"
    using count_words_from_append [OF r] by (simp add: count_words_def)
  finally show ?case using Cons by simp
qed

lemma ends_with_space_joined:
  "fs \<noteq> [] \<Longrightarrow> ends_with_space (joined fs) = (last fs = [] \<or> ends_with_space (last fs))"
proof (induction fs)
  case Nil
  then show ?case by simp
next
  case (Cons f fs)
  show ?case
  proof (cases "fs = []")
    case True
    then show ?thesis by (auto simp: joined_def ends_with_space_def is_space_def)
  next
    case False
    then have "joined fs \<noteq> []" by (cases fs) (simp_all add: joined_def)
    then have "ends_with_space (joined (f # fs)) = ends_with_space (joined fs)"
      by (simp add: joined_def ends_with_space_def)
    with Cons False show ?thesis by simp
  qed
qed

lemma joined_append: "joined (fs @ gs) = joined fs @ joined gs"
  by (simp add: joined_def)

lemma transcript_on_message:
  assumes "message \<noteq> Parsed Start"
  shows "transcript (fst (on_message now s message)) =
     transcript s @ joined (fragment_of message)"
proof (cases message)
  case (Unparsable description)
  then show ?thesis by (simp add: on_message_def joined_def)
next
  case (Parsed d)
  with assms show ?thesis
    by (cases d) (simp_all add: on_message_def joined_def ascii_def split: sum.splits sample.splits)
qed

lemma transcript_run:
  assumes "Parsed Start \<notin> snd ` set ms"
  shows "transcript (run s ms) = transcript s @ joined (fragments_of ms)"
  using assms
proof (induction ms arbitrary: s)
  case Nil
  show ?case by (simp add: run_def joined_def fragments_of_def)
next
  case (Cons m ms)
  obtain now message where m: "m = (now, message)" by (cases m)
  with Cons.prems have ne: "message \<noteq> Parsed Start" and rest: "Parsed Start \<notin> snd ` set ms"
    by auto
  have "run s (m # ms) = run (fst (on_message now s message)) ms"
    by (simp add: run_def m)
  then have "transcript (run s (m # ms)) =
      transcript (fst (on_message now s message)) @ joined (fragments_of ms)"
    using Cons.IH [OF rest] by simp
  also have "\<dots> = transcript s @ joined (fragment_of message @ fragments_of ms)"
    using transcript_on_message [OF ne] by (simp add: joined_append)
  finally show ?case by (simp add: fragments_of_def m)
qed


lemma totalWords_analyzeTranscript:
  "m_totalWords (metrics (analyzeTranscript t d g n)) = wordCount_of t"
  by (simp add: metrics_analyzeTranscript)

lemma totalWords_stop_analysis:
  "stop_analysis now s = Inr result \<Longrightarrow> m_totalWords (metrics result) = wordCount_of (transcript s)"
  by (auto simp: stop_analysis_def Let_def metrics_analyzeTranscript split: sum.splits)

lemma joined_Cons: "joined (f # fs) = 32 # f @ joined fs"
  by (simp add: joined_def)

lemma wordCount_of_joined:
  assumes "fs \<noteq> []"
  shows "wordCount_of (joined fs) =
     sum_list (map count_words fs) + (if last fs = [] \<or> ends_with_space (last fs) then 2 else 1)"
proof -
  obtain f gs where fs: "fs = f # gs" using assms by (cases fs) auto
  have "wordCount_of (joined fs) =
      count_words (joined fs) + (if ends_with_space (joined fs) then 2 else 1)"
    unfolding fs joined_Cons by (rule wordCount_of_leading_space)
  then show ?thesis
    by (simp add: count_words_joined ends_with_space_joined [OF assms])
qed

text \<open>
  Claim C10, as stated: in a session with at least one fragment the word count of the
  analyzer is one more than the number of words in the fragments. A session whose only
  fragment is the empty string has the transcript \<open>' '\<close>, which splits into two empty
  pieces: the count is 2, and the fragments have no word.
\<close>

theorem session_word_count_counterexample:
  "fragments_of [(1, Parsed (Transcript []))] = [[]]
   \<and> sum_list (map count_words (fragments_of [(1, Parsed (Transcript []))])) = 0
   \<and> transcript (run (fresh_session 0) [(1, Parsed (Transcript []))]) = ascii '' ''
   \<and> stop_analysis 2 (run (fresh_session 0) [(1, Parsed (Transcript []))]) =
       Inr (analyzeTranscript (ascii '' '') (1 / 500) 0 0)
   \<and> m_totalWords (metrics (analyzeTranscript (ascii '' '') (1 / 500) 0 0)) = 2
   \<and> m_totalWords (metrics (analyzeTranscript (ascii '' '') (1 / 500) 0 0)) \<noteq>
       sum_list (map count_words (fragments_of [(1, Parsed (Transcript []))])) + 1"
  by (simp add: totalWords_analyzeTranscript run_def on_message_def fresh_session_def
      fragments_of_def count_words_def split_eval stop_analysis_def avgEyeContact_of_def)

text \<open>
  Claim C10, amended. Each transcript event appends a space followed by the fragment. A
  session begins with the session data of a new connection, which a start event restores,
  and handles messages with no further start. Its transcript is the fragments, each after a
  space; so with at least one fragment it begins with a space, and the word count of the
  analyzer on it (the \<open>totalWords\<close> of the analysis that a stop event sends) is the number
  of words in the fragments plus 1 when the last fragment ends in a code unit that is not
  white space, and plus 2 when the last fragment is empty or ends in white space. With no
  fragment the count is 1.
\<close>

theorem session_word_count:
  assumes "Parsed Start \<notin> snd ` set messages"
  shows "fst (on_message now s (Parsed (Transcript fragment))) =
       s\<lparr>transcript := transcript s @ 32 # fragment\<rparr>
   \<and> fst (on_message start s (Parsed Start)) = fresh_session start
   \<and> transcript (run (fresh_session start) messages) = joined (fragments_of messages)
   \<and> (fragments_of messages \<noteq> [] \<longrightarrow>
        hd (transcript (run (fresh_session start) messages)) = 32
        \<and> m_totalWords (metrics (analyzeTranscript
             (transcript (run (fresh_session start) messages)) duration g n)) =
           sum_list (map count_words (fragments_of messages))
           + (if last (fragments_of messages) = [] \<or> ends_with_space (last (fragments_of messages))
              then 2 else 1)
        \<and> (\<forall>result. stop_analysis stop (run (fresh_session start) messages) = Inr result \<longrightarrow>
             m_totalWords (metrics result) =
             sum_list (map count_words (fragments_of messages))
             + (if last (fragments_of messages) = [] \<or> ends_with_space (last (fragments_of messages))
                then 2 else 1)))
   \<and> (fragments_of messages = [] \<longrightarrow>
        m_totalWords (metrics (analyzeTranscript
          (transcript (run (fresh_session start) messages)) duration g n)) = 1
        \<and> (\<forall>result. stop_analysis stop (run (fresh_session start) messages) = Inr result \<longrightarrow>
             m_totalWords (metrics result) = 1))"
proof -
  have t: "transcript (run (fresh_session start) messages) = joined (fragments_of messages)"
    using transcript_run [OF assms, of "fresh_session start"]
    by (simp add: fresh_session_def)
  have "hd (joined (fragments_of messages)) = 32" if "fragments_of messages \<noteq> []"
    using that by (cases "fragments_of messages") (simp_all add: joined_Cons)
  moreover have "wordCount_of (joined []) = 1"
    by (simp add: joined_def wordCount_of_def split_whitespace_def)
  moreover have "fst (on_message now s (Parsed (Transcript fragment))) =
       s\<lparr>transcript := transcript s @ 32 # fragment\<rparr>"
    by (simp add: on_message_def ascii_def)
  moreover have "fst (on_message start s (Parsed Start)) = fresh_session start"
    by (simp add: on_message_def)
  moreover have "m_totalWords (metrics result) = wordCount_of (joined (fragments_of messages))"
    if "stop_analysis stop (run (fresh_session start) messages) = Inr result" for result
    using totalWords_stop_analysis [OF that] t by simp
  ultimately show ?thesis
    using t by (simp add: totalWords_analyzeTranscript wordCount_of_joined)
qed

text \<open>
  Two fragments with three words, and a gaze sample between them: the transcript is
  \<open>' hello world again'\<close> and the count is 4. One fragment that ends in a space: one
  word, and the count is 3. No message at all: the count is 1.
\<close>

theorem session_word_count_witness:
  "Parsed Start \<notin> snd ` set [(1, Parsed (Transcript (ascii ''hello world''))),
       (2, Parsed (EyeContact (Score 75))), (3, Parsed (Transcript (ascii ''again'')))]
   \<and> fragments_of [(1, Parsed (Transcript (ascii ''hello world''))),
       (2, Parsed (EyeContact (Score 75))), (3, Parsed (Transcript (ascii ''again'')))] =
       [ascii ''hello world'', ascii ''again'']
   \<and> transcript (run (fresh_session 0)
       [(1, Parsed (Transcript (ascii ''hello world''))),
        (2, Parsed (EyeContact (Score 75))), (3, Parsed (Transcript (ascii ''again'')))]) =
       ascii '' hello world again''
   \<and> stop_analysis 4 (run (fresh_session 0)
       [(1, Parsed (Transcript (ascii ''hello world''))),
        (2, Parsed (EyeContact (Score 75))), (3, Parsed (Transcript (ascii ''again'')))]) =
       Inr (analyzeTranscript (ascii '' hello world again'') (1 / 250) 75 0)
   \<and> m_totalWords (metrics (analyzeTranscript (ascii '' hello world again'') (1 / 250) 75 0)) = 4
   \<and> Parsed Start \<notin> snd ` set [(1, Parsed (Transcript (ascii ''hello '')))]
   \<and> sum_list (map count_words (fragments_of [(1, Parsed (Transcript (ascii ''hello '')))])) = 1
   \<and> m_totalWords (metrics (analyzeTranscript
       (transcript (run (fresh_session 0) [(1, Parsed (Transcript (ascii ''hello '')))]))
       (1 / 250) 0 0)) = 3
   \<and> Parsed Start \<notin> snd ` set ([] :: (int \<times> inbound) list)
   \<and> m_totalWords (metrics (analyzeTranscript (transcript (run (fresh_session 0) []))
       (1 / 250) 0 0)) = 1"
proof -
  have no_start: "Parsed Start \<notin> snd ` set [(1, Parsed (Transcript (ascii ''hello world''))),
       (2, Parsed (EyeContact (Score 75))), (3, Parsed (Transcript (ascii ''again'')))]"
    by simp
  have fragments: "fragments_of [(1, Parsed (Transcript (ascii ''hello world''))),
       (2, Parsed (EyeContact (Score 75))), (3, Parsed (Transcript (ascii ''again'')))] =
       [ascii ''hello world'', ascii ''again'']"
    by (simp add: fragments_of_def)
  have stop: "stop_analysis 4 (run (fresh_session 0)
       [(1, Parsed (Transcript (ascii ''hello world''))),
        (2, Parsed (EyeContact (Score 75))), (3, Parsed (Transcript (ascii ''again'')))]) =
       Inr (analyzeTranscript (ascii '' hello world again'') (1 / 250) 75 0)"
    by (simp add: run_def on_message_def fresh_session_def stop_analysis_def
        avgEyeContact_of_def Math_round_def ascii_def)
  have no_start': "Parsed Start \<notin> snd ` set [(1, Parsed (Transcript (ascii ''hello '')))]"
    by simp
  have fragments': "fragments_of [(1, Parsed (Transcript (ascii ''hello '')))] = [ascii ''hello '']"
    by (simp add: fragments_of_def)
  have no_start'': "Parsed Start \<notin> snd ` set ([] :: (int \<times> inbound) list)"
    by simp
  have fragments'': "fragments_of [] = []"
    by (simp add: fragments_of_def)
  show ?thesis
    using no_start fragments stop no_start' fragments' no_start'' fragments''
      session_word_count [OF no_start, of 0 "fresh_session 0" "[]" 0 "1 / 250" 75 0 4]
      session_word_count [OF no_start', of 0 "fresh_session 0" "[]" 0 "1 / 250" 0 0 4]
      session_word_count [OF no_start'', of 0 "fresh_session 0" "[]" 0 "1 / 250" 0 0 4]
    by (simp add: joined_def ascii_def count_words_def is_space_def ends_with_space_def
        run_def on_message_def fresh_session_def)
qed

section \<open>Rounding to a double\<close>

text \<open>The exponent that \<open>round64\<close> works with is the one of its argument.\<close>

lemma ilog2_bounds: "0 < n \<Longrightarrow> 2 ^ ilog2 n \<le> n \<and> n < 2 ^ Suc (ilog2 n)"
proof (induction n rule: ilog2.induct)
  case (1 n)
  show ?case
  proof (cases "n < 2")
    case True
    with "1.prems" have "n = 1" by simp
    then show ?thesis by (simp add: ilog2.simps)
  next
    case False
    then have "0 < n div 2" by simp
    then have "2 ^ ilog2 (n div 2) \<le> n div 2 \<and> n div 2 < 2 ^ Suc (ilog2 (n div 2))"
      using "1.IH" False by simp
    moreover have "ilog2 n = Suc (ilog2 (n div 2))"
      using False by (subst ilog2.simps) simp
    ultimately show ?thesis by auto
  qed
qed

lemma binade_bounds:
  assumes "0 < x"
  shows "pow2 (binade x) \<le> x \<and> x < pow2 (binade x + 1)"
proof (cases "1 \<le> x")
  case True
  define n where "n = nat \<lfloor>x\<rfloor>"
  have "0 < n" using True by (simp add: n_def)
  moreover have "real n \<le> x" using True by (simp add: n_def)
  moreover have "x < real n + 1" using True unfolding n_def by linarith
  ultimately have n: "0 < n" "real n \<le> x" "x < real n + 1" by simp_all
  have "2 ^ ilog2 n \<le> n" and "n < 2 ^ Suc (ilog2 n)" using ilog2_bounds [OF n(1)] by simp_all
  then have "(2::real) ^ ilog2 n \<le> real n" and "real n + 1 \<le> 2 ^ Suc (ilog2 n)"
    by (metis of_nat_le_iff of_nat_numeral of_nat_power,
        metis Suc_leI of_nat_Suc of_nat_le_iff of_nat_numeral of_nat_power add.commute)
  moreover have "pow2 (binade x) = 2 ^ ilog2 n"
    using True by (simp add: binade_def pow2_def n_def)
  moreover have "pow2 (binade x + 1) = 2 ^ Suc (ilog2 n)"
    using True by (simp add: binade_def pow2_def n_def nat_add_distrib)
  ultimately show ?thesis using n(2,3) by linarith
next
  case False
  define m where "m = nat \<lceil>1 / x\<rceil>"
  have y: "1 < 1 / x" using assms False by simp
  then have "2 \<le> \<lceil>1 / x\<rceil>" by linarith
  then have m: "2 \<le> m" unfolding m_def by arith
  have up: "1 / x \<le> real m" unfolding m_def using y by linarith
  have down: "real m - 1 < 1 / x" unfolding m_def using y by linarith
  define k where "k = Suc (ilog2 (m - 1))"
  have "2 ^ ilog2 (m - 1) \<le> m - 1" and "m - 1 < 2 ^ Suc (ilog2 (m - 1))"
    using ilog2_bounds [of "m - 1"] m by simp_all
  then have lo: "(2::real) ^ (k - 1) \<le> real m - 1" and hi: "real m \<le> 2 ^ k"
    using m unfolding k_def
    by (metis diff_Suc_1 of_nat_1 of_nat_diff of_nat_le_iff of_nat_numeral of_nat_power
          One_nat_def Suc_1 Suc_leD,
        metis Suc_pred' less_le_trans of_nat_le_iff of_nat_numeral of_nat_power
          pos2 less_eq_Suc_le)
  have b: "binade x = - int k"
    using False y by (simp add: binade_def m_def k_def)
  have "1 / x \<le> 2 ^ k" using up hi by (rule order_trans)
  then have lower: "1 / 2 ^ k \<le> x"
    using assms by (simp add: field_simps)
  have "2 ^ (k - 1) < 1 / x" using lo down by (rule le_less_trans)
  then have upper: "x < 1 / 2 ^ (k - 1)"
    using assms by (simp add: field_simps)
  have k: "0 < k" by (simp add: k_def)
  show ?thesis
  proof (cases "k = 1")
    case True
    with lower upper b show ?thesis by (simp add: pow2_def)
  next
    case False
    with k have "nat (int k - 1) = k - 1" by simp
    with lower upper b k False show ?thesis by (simp add: pow2_def)
  qed
qed


lemmas double_eval = round64_def binade_def pow2_def round_ties_even_def ilog2.simps
  literal_def d_sub_def d_mul_def Let_def

text \<open>
  The double of one tenth; ties at \<open>2 ^ 53\<close> going to the even significand; a number that
  needs no rounding; the smallest doubles; the overflow to infinity.
\<close>

lemma round64_examples:
  "round64 (1 / 10) = Double (3602879701896397 / 36028797018963968)"
  "round64 (2 ^ 53 + 1) = Double (2 ^ 53)"
  "round64 (2 ^ 53 + 3) = Double (2 ^ 53 + 4)"
  "round64 (- 3 / 2) = Double (- 3 / 2)"
  by (simp_all add: double_eval)

lemma round64_limits:
  "round64 (3 / 2 ^ 1075) = Double (1 / 2 ^ 1073)"
  "round64 (2 ^ 1024 - 2 ^ 970) = PlusInfinity"
  by (simp_all add: double_eval)

section \<open>The gaze classifier\<close>















end
